theory Spec2Isabelle
  imports Main "HOL-Library.Multiset"
begin

section \<open>NumPy array operations used by get\_sleep.py\<close>

text \<open>
  One-dimensional arrays are lists. The exceptions NumPy and pandas raise in the
  operations below are values of \<open>py_error\<close>; a computation that may raise returns
  \<open>py_error + 'a\<close>, with \<open>Inl\<close> for the exception.
\<close>

datatype py_error = ValueError | IndexError | TypeError

text \<open>\<open>np.sum(msk)\<close> of a boolean array: the number of true entries.\<close>

definition count_true :: "bool list \<Rightarrow> nat" where
  "count_true msk = length (filter (\<lambda>m. m) msk)"

text \<open>
  \<open>a[msk]\<close> with a boolean array \<open>msk\<close>: the entries of \<open>a\<close> where the mask is
  true, in the order of \<open>a\<close>. A mask whose length differs from that of \<open>a\<close> raises
  IndexError.
\<close>

definition bool_index :: "'a list \<Rightarrow> bool list \<Rightarrow> py_error + 'a list" where
  "bool_index a msk =
     (if length msk \<noteq> length a then Inl IndexError
      else Inr (map fst (filter snd (zip a msk))))"

text \<open>
  The positions of \<open>xs\<close> where the mask is true receive the values \<open>vs\<close> one after
  the other; the other positions keep their entry.
\<close>

fun put_values :: "'a list \<Rightarrow> bool list \<Rightarrow> 'a list \<Rightarrow> 'a list" where
  "put_values [] ms vs = []"
| "put_values (x # xs) [] vs = x # xs"
| "put_values (x # xs) (True # ms) (v # vs) = v # put_values xs ms vs"
| "put_values (x # xs) (True # ms) [] = x # put_values xs ms []"
| "put_values (x # xs) (False # ms) vs = x # put_values xs ms vs"

text \<open>
  \<open>a[msk] = v\<close> with a boolean array \<open>msk\<close> and a one-dimensional array \<open>v\<close>.
  A mask of the wrong length raises IndexError. A value array of length one is
  broadcast: every position where the mask is true receives its only entry. A
  value array of any other length must have exactly as many entries as the mask
  has true positions, or the assignment raises ValueError ("cannot assign k input
  values to the n output values where the mask is true").
\<close>

definition bool_assign :: "'a list \<Rightarrow> bool list \<Rightarrow> 'a list \<Rightarrow> py_error + 'a list" where
  "bool_assign a msk v =
     (if length msk \<noteq> length a then Inl IndexError
      else if length v \<noteq> 1 then
        (if count_true msk \<noteq> length v then Inl ValueError
         else Inr (put_values a msk v))
      else Inr (map (\<lambda>(x, m). if m then hd v else x) (zip a msk)))"

section \<open>The sleep block table\<close>

text \<open>
  A row of \<open>all_sleep_wins_df\<close> as \<open>get_sleep_windows\<close> builds it: the columns
  \<open>start\<close>, \<open>end\<close>, \<open>interval_start\<close>, \<open>interval_end\<close> and \<open>wear_duration_H\<close>.
  Timestamps are integers (a count of time units since a fixed instant). The
  fields \<open>start_t\<close> and \<open>end_t\<close> carry the names of the variables through which
  the source reads the two columns.
\<close>

record 'w sleep_win =
  start_t :: int
  end_t :: int
  interval_start :: int
  interval_end :: int
  wear_duration_H :: 'w

text \<open>The row after \<open>main\<close> has added the column \<open>is_longest_block\<close>.\<close>

record 'w sleep_block = "'w sleep_win" +
  is_longest_block :: bool

text \<open>\<open>(times >= start_t) & (times < end_t)\<close>, the array \<open>times\<close> being \<open>tms\<close> here\<close>

definition time_filter :: "int list \<Rightarrow> int \<Rightarrow> int \<Rightarrow> bool list" where
  "time_filter tms s e = map (\<lambda>t. s \<le> t \<and> t < e) tms"

section \<open>Result stitching (main, lines 359-371)\<close>

text \<open>
  The loop of \<open>main\<close> over \<open>block_id in range(len(all_sleep_wins_df))\<close>. The
  label array \<open>sleepnet_output\<close> is the array \<open>binary_y\<close> itself, overwritten in
  place; the model passes it on from one iteration to the next. An exception
  ends the loop (and the run).
\<close>

fun stitch_blocks ::
  "int list \<Rightarrow> 'l list \<Rightarrow> int list \<Rightarrow> (nat \<times> ('w, 'z) sleep_win_scheme) list \<Rightarrow> 'l list
     \<Rightarrow> py_error + 'l list" where
  "stitch_blocks tms y_pred test_pids [] sleepnet_output = Inr sleepnet_output"
| "stitch_blocks tms y_pred test_pids ((block_id, row) # rest) sleepnet_output =
     (case bool_index y_pred (map (\<lambda>p. p = int block_id) test_pids) of
        Inl e \<Rightarrow> Inl e
      | Inr sleepnet_pred \<Rightarrow>
          (case bool_assign sleepnet_output (time_filter tms (start_t row) (end_t row))
                  sleepnet_pred of
             Inl e \<Rightarrow> Inl e
           | Inr out \<Rightarrow> stitch_blocks tms y_pred test_pids rest out))"

definition stitch ::
  "int list \<Rightarrow> 'l list \<Rightarrow> 'l list \<Rightarrow> int list \<Rightarrow> ('w, 'z) sleep_win_scheme list
     \<Rightarrow> py_error + 'l list" where
  "stitch tms binary_y y_pred test_pids all_sleep_wins_df =
     stitch_blocks tms y_pred test_pids (enumerate 0 all_sleep_wins_df) binary_y"

text \<open>
  Notions the statements about stitching use: the refined predictions returned
  for a block id, the number of epochs of the series in a block, and the rank
  of epoch \<open>j\<close> among the epochs of its block (its position in chronological
  order within the block, the series being in chronological order).
\<close>

definition block_preds :: "'l list \<Rightarrow> int list \<Rightarrow> nat \<Rightarrow> 'l list" where
  "block_preds y_pred test_pids block_id =
     map fst (filter snd (zip y_pred (map (\<lambda>p. p = int block_id) test_pids)))"

definition in_block :: "('w, 'z) sleep_win_scheme \<Rightarrow> int \<Rightarrow> bool" where
  "in_block row t = (start_t row \<le> t \<and> t < end_t row)"

definition block_epochs :: "int list \<Rightarrow> ('w, 'z) sleep_win_scheme \<Rightarrow> nat" where
  "block_epochs tms row = count_true (time_filter tms (start_t row) (end_t row))"

definition rank_in_block :: "int list \<Rightarrow> ('w, 'z) sleep_win_scheme \<Rightarrow> nat \<Rightarrow> nat" where
  "rank_in_block tms row j =
     count_true (take j (time_filter tms (start_t row) (end_t row)))"

section \<open>Block-to-epoch mapping (get\_master\_df, lines 444-465)\<close>

text \<open>
  \<open>block_time_df.iterrows()\<close> yields each row with its index label. The table
  is built by \<open>pd.DataFrame(all_sleep_wins, columns=[...])\<close>, whose index is
  0, 1, 2, ... in row order, so the label of a row is its position. The state of
  the loop is the pair \<open>(master_acc, master_npids)\<close>, both empty at the start.
  \<open>np.ones(np.sum(time_filter)) * index\<close> is the block id repeated once per epoch
  of the block.
\<close>

fun get_master_df_loop ::
  "(nat \<times> ('w, 'z) sleep_win_scheme) list \<Rightarrow> int list \<Rightarrow> 'x list \<Rightarrow> 'x list \<times> int list
     \<Rightarrow> py_error + ('x list \<times> int list)" where
  "get_master_df_loop [] tms acc_array (master_acc, master_npids) =
     Inr (master_acc, master_npids)"
| "get_master_df_loop ((index, row) # rest) tms acc_array (master_acc, master_npids) =
     (case bool_index acc_array (time_filter tms (start_t row) (end_t row)) of
        Inl e \<Rightarrow> Inl e
      | Inr current_day_acc \<Rightarrow>
          (let day_pid = replicate (count_true (time_filter tms (start_t row) (end_t row)))
                           (int index)
           in if length master_npids = 0
              then get_master_df_loop rest tms acc_array (current_day_acc, day_pid)
              else get_master_df_loop rest tms acc_array
                     (master_acc @ current_day_acc, master_npids @ day_pid)))"

definition get_master_df ::
  "('w, 'z) sleep_win_scheme list \<Rightarrow> int list \<Rightarrow> 'x list \<Rightarrow> py_error + ('x list \<times> int list)" where
  "get_master_df block_time_df tms acc_array =
     get_master_df_loop (enumerate 0 block_time_df) tms acc_array ([], [])"

text \<open>
  The epochs of the series that lie in a block, each with its timestamp, in the
  order of the series.
\<close>

definition epochs_of_block :: "int list \<Rightarrow> 'x list \<Rightarrow> ('w, 'z) sleep_win_scheme \<Rightarrow> (int \<times> 'x) list" where
  "epochs_of_block tms acc_array row = filter (\<lambda>(t, x). in_block row t) (zip tms acc_array)"

section \<open>Coarse prediction and binary labels (get\_sleep\_windows, lines 166-200)\<close>

text \<open>
  The arguments of the command line as \<open>parser.parse_args()\<close> returns them
  (main, lines 232-293), and the values the parser gives the optional ones
  when the command line leaves them out.
\<close>

record args =
  filepath :: string
  outdir :: string
  force_download :: bool
  force_run :: bool
  remove_intermediate_files :: bool
  report_light_and_temp :: bool
  pytorch_device :: string
  model_weight_path :: string
  local_repo_path :: string
  min_wear :: int
  time_shift :: string

definition default_args :: "string \<Rightarrow> args" where
  "default_args file =
     \<lparr>filepath = file, outdir = ''outputs/'', force_download = False, force_run = False,
      remove_intermediate_files = False, report_light_and_temp = False,
      pytorch_device = ''cpu'', model_weight_path = [], local_repo_path = [],
      min_wear = 22, time_shift = ''0''\<rparr>"

definition NON_WEAR_THRESHOLD :: int where
  "NON_WEAR_THRESHOLD = 3"

definition NON_WEAR_PREDICTION_FLAG :: int where
  "NON_WEAR_PREDICTION_FLAG = - 1"

text \<open>
  Lines 171-189. The sleep-window detector is a parameter: \<open>predict\<close> maps the
  channel-last windows to one label each (which file the detector is loaded
  from, \<open>args.force_download\<close> included, is outside the model). \<open>ssl_sleep\<close> is the content of the
  file \<open>ssl_sleep.npy\<close>, \<open>None\<close> when the file does not exist; the function
  returns the prediction array together with the content of the file after
  the call. \<open>np.swapaxes(data2model, 1, -1)\<close> transposes each window. The array
  \<open>non_wear\<close> is boolean, \<open>~non_wear\<close> its negation entry by entry.
\<close>

definition predict_sleep_windows ::
  "('x list list list \<Rightarrow> int list) \<Rightarrow> 'x list list list \<Rightarrow> int list \<Rightarrow> bool list
     \<Rightarrow> args \<Rightarrow> int list option \<Rightarrow> py_error + (int list \<times> int list option)" where
  "predict_sleep_windows predict data2model tms non_wear args ssl_sleep =
     (let sleep_prediction = replicate (length tms) NON_WEAR_PREDICTION_FLAG in
      case bool_index data2model (map Not non_wear) of
        Inl e \<Rightarrow> Inl e
      | Inr data2model_wear \<Rightarrow>
          if ssl_sleep = None \<or> force_run args then
            (let data_channel_last = map transpose data2model_wear;
                 window_pred = predict data_channel_last
             in case bool_assign sleep_prediction (map Not non_wear) window_pred of
                  Inl e \<Rightarrow> Inl e
                | Inr sleep_prediction' \<Rightarrow> Inr (sleep_prediction', Some sleep_prediction'))
          else
            (case ssl_sleep of
               Some saved \<Rightarrow> Inr (saved, ssl_sleep)
             | None \<Rightarrow> Inr (sleep_prediction, ssl_sleep)))"

text \<open>
  \<open>np.vectorize(d.get)(a)\<close> for a dictionary \<open>d\<close>: \<open>d.get\<close> returns \<open>None\<close> for a
  key the dictionary does not have. \<open>np.vectorize\<close> refuses an array of size 0
  (ValueError); it takes the type of the result array from the first output,
  so that a \<open>None\<close> after a first output that is a number cannot be converted
  (TypeError), while a first output \<open>None\<close> gives an array of objects.
\<close>

definition vectorize_get :: "('k \<Rightarrow> 'v option) \<Rightarrow> 'k list \<Rightarrow> py_error + 'v option list" where
  "vectorize_get d a =
     (if a = [] then Inl ValueError
      else let outputs = map d a
           in if hd outputs \<noteq> None \<and> None \<in> set outputs then Inl TypeError
              else Inr outputs)"

text \<open>
  A row of \<open>my_df\<close>, the data frame with the columns \<open>time\<close>, \<open>label\<close> and
  \<open>is_wear\<close> (lines 192-200). The label is a value of the table
  \<open>SLEEPNET_LABELS\<close> or \<open>None\<close>. The constructor of the data frame raises
  ValueError for columns of different lengths.
\<close>

record epoch =
  time :: int
  label :: "int option"
  is_wear :: bool

definition binary_labels :: "(int \<Rightarrow> int option) \<Rightarrow> int list \<Rightarrow> py_error + int option list" where
  "binary_labels SLEEPNET_LABELS sleep_prediction = vectorize_get SLEEPNET_LABELS sleep_prediction"

definition make_my_df :: "int list \<Rightarrow> int option list \<Rightarrow> py_error + epoch list" where
  "make_my_df tms binary_y =
     (if length binary_y \<noteq> length tms then Inl ValueError
      else Inr (map (\<lambda>(t, y). \<lparr>time = t, label = y,
                                is_wear = (y \<noteq> Some NON_WEAR_PREDICTION_FLAG)\<rparr>)
                  (zip tms binary_y)))"

definition sleep_window_frame ::
  "(int \<Rightarrow> int option) \<Rightarrow> int list \<Rightarrow> int list \<Rightarrow> py_error + epoch list" where
  "sleep_window_frame SLEEPNET_LABELS tms sleep_prediction =
     (case binary_labels SLEEPNET_LABELS sleep_prediction of
        Inl e \<Rightarrow> Inl e
      | Inr binary_y \<Rightarrow> make_my_df tms binary_y)"

text \<open>
  The predictions the detector returns for the windows that are worn; the
  statement about the coarse prediction array uses it.
\<close>

definition window_predictions ::
  "('x list list list \<Rightarrow> int list) \<Rightarrow> 'x list list list \<Rightarrow> bool list \<Rightarrow> int list" where
  "window_predictions predict data2model non_wear =
     predict (map transpose (map fst (filter snd (zip data2model (map Not non_wear)))))"

section \<open>Longest-block marking (main, lines 416-421)\<close>

text \<open>
  \<open>all_sleep_wins_df['is_longest_block'] = False\<close> adds the column to every row.
\<close>

definition add_is_longest_block :: "'w sleep_win list \<Rightarrow> 'w sleep_block list" where
  "add_is_longest_block all_sleep_wins_df =
     map (\<lambda>row. sleep_win.extend row \<lparr>is_longest_block = False\<rparr>) all_sleep_wins_df"

text \<open>
  One iteration of the loop over the rows \<open>(start, end)\<close> of
  \<open>sleep_wins_long_per_day_df\<close>: every row of the block table whose \<open>start\<close> and
  \<open>end\<close> both equal those of the given row gets the flag.
\<close>

definition mark_block :: "int \<times> int \<Rightarrow> 'w sleep_block list \<Rightarrow> 'w sleep_block list" where
  "mark_block long_row all_sleep_wins_df =
     map (\<lambda>row. if start_t row = fst long_row \<and> end_t row = snd long_row
                 then row\<lparr>is_longest_block := True\<rparr> else row)
       all_sleep_wins_df"

definition mark_longest_blocks :: "(int \<times> int) list \<Rightarrow> 'w sleep_win list \<Rightarrow> 'w sleep_block list" where
  "mark_longest_blocks sleep_wins_long_per_day_df all_sleep_wins_df =
     fold mark_block sleep_wins_long_per_day_df (add_is_longest_block all_sleep_wins_df)"

section \<open>The run after sleep-window detection (main, lines 348-441)\<close>

text \<open>
  What a run does to the outside is a list of events, in order: the lines it
  prints in the branch without sleep windows, the call of the second model, the
  files it writes and the calls of the two summary functions. (The lines the
  other branch prints show shapes and heads of data frames and are left out.)
  A run ends by \<open>exit()\<close>, by an exception, or by returning; the last carries
  the rows of \<open>predictions.csv\<close> and of \<open>sleep_block.csv\<close>.
\<close>

datatype event =
    Print string
  | Call_start_sleep_net
  | Write_predictions_csv
  | Write_sleep_block_csv
  | Call_generate_sleep_parameters
  | Call_summarize_daily_sleep

datatype 'w ending =
    Exit
  | Raise py_error
  | Return "(int \<times> int option) list" "'w sleep_block list"

text \<open>\<open>os.path.join\<close> of a directory and a relative file name (POSIX).\<close>

definition path_join :: "string \<Rightarrow> string \<Rightarrow> string" where
  "path_join dir name =
     (if dir = [] then name
      else if last dir = CHR ''/'' then dir @ name
      else dir @ ''/'' @ name)"

text \<open>
  The second model \<open>start_sleep_net\<close> is a parameter; \<open>args.outdir\<close> is the
  directory of the outputs of the run (main, line 302). Of \<open>predictions.csv\<close> the
  model keeps the columns \<open>time\<close> and \<open>raw_label\<close>; the columns \<open>sleep_wake\<close> and
  \<open>sleep_stage\<close>, which \<open>np.vectorize\<close> derives from \<open>raw_label\<close> through the
  tables \<open>SLEEPNET_BINARY_LABELS\<close> and \<open>SLEEPNET_THRE_CLASS_LABELS\<close>, and the
  columns \<open>temperature\<close> and \<open>light\<close> are left out. \<open>np.vectorize\<close> raises
  ValueError on an array of size 0, and the constructor of the data frame
  raises ValueError for columns of different lengths.
\<close>

definition main_after_detection ::
  "('x list \<Rightarrow> int list \<Rightarrow> int list \<times> int list) \<Rightarrow> string \<Rightarrow> args \<Rightarrow> int list
     \<Rightarrow> int option list \<Rightarrow> 'w sleep_win list \<Rightarrow> (int \<times> int) list \<Rightarrow> 'x list \<Rightarrow> int list
     \<Rightarrow> event list \<times> 'w ending" where
  "main_after_detection start_sleep_net non_wear_path args tms binary_y all_sleep_wins_df
       sleep_wins_long_per_day_df master_acc master_npids =
     (if length master_npids \<le> 0 then
        ([Print ''No sleep windows >30 mins detected. Exiting...'',
          Print (''Non-wear time has been written to '' @ non_wear_path),
          Print (''Current sleep classification has been written to '' @
                   path_join (outdir args) ''ssl_sleep.npy'')],
         Exit)
      else
        (case start_sleep_net master_acc master_npids of (y_pred, test_pids) \<Rightarrow>
          (case stitch tms binary_y (map Some y_pred) test_pids all_sleep_wins_df of
             Inl e \<Rightarrow> ([Call_start_sleep_net], Raise e)
           | Inr sleepnet_output \<Rightarrow>
               if sleepnet_output = [] \<or> length sleepnet_output \<noteq> length tms
               then ([Call_start_sleep_net], Raise ValueError)
               else
                 ([Call_start_sleep_net, Write_predictions_csv, Write_sleep_block_csv,
                   Call_generate_sleep_parameters, Call_summarize_daily_sleep],
                  Return (zip tms sleepnet_output)
                    (mark_longest_blocks sleep_wins_long_per_day_df all_sleep_wins_df)))))"

section \<open>The per-night longest-block table\<close>

text \<open>
  The night interval a row of the block table is assigned to, and the duration
  of its block.
\<close>

definition night_of :: "('w, 'z) sleep_win_scheme \<Rightarrow> int \<times> int" where
  "night_of row = (interval_start row, interval_end row)"

definition duration :: "('w, 'z) sleep_win_scheme \<Rightarrow> int" where
  "duration row = end_t row - start_t row"

text \<open>
  Modelled from the spec: the order in which \<open>time_series2sleep_blocks\<close> of
  \<open>asleep.sleep_windows\<close>, which is not among the sources, prefers one block of
  a night to another. Section 4.4, step 4: the block "with maximum duration",
  "ties broken by earliest start time".
\<close>

definition longer :: "('w, 'z) sleep_win_scheme \<Rightarrow> ('w, 'z) sleep_win_scheme \<Rightarrow> bool" where
  "longer a b = (duration b < duration a \<or> (duration a = duration b \<and> start_t a < start_t b))"

text \<open>
  Modelled from the spec: the selection of the longest block among the blocks
  of one night in \<open>time_series2sleep_blocks\<close> (section 4.4, step 4), a scan
  that keeps the preferred block.
\<close>

fun longest_block ::
  "('w, 'z) sleep_win_scheme \<Rightarrow> ('w, 'z) sleep_win_scheme list \<Rightarrow> ('w, 'z) sleep_win_scheme" where
  "longest_block best [] = best"
| "longest_block best (row # rows) = longest_block (if longer row best then row else best) rows"

text \<open>
  Modelled from the spec: the night intervals of \<open>time_series2sleep_blocks\<close>
  that have a sleep block, each once, in the order of the block table.
\<close>

definition night_intervals :: "('w, 'z) sleep_win_scheme list \<Rightarrow> (int \<times> int) list" where
  "night_intervals df = remdups (map night_of df)"

text \<open>
  Modelled from the spec: the longest block of a night interval in
  \<open>time_series2sleep_blocks\<close>; an interval without sleep block has none (section 3: the flag "is absent if the interval
  contains zero sleep blocks").
\<close>

definition interval_longest ::
  "int \<times> int \<Rightarrow> ('w, 'z) sleep_win_scheme list \<Rightarrow> ('w, 'z) sleep_win_scheme option" where
  "interval_longest iv df =
     (case filter (\<lambda>row. night_of row = iv) df of
        [] \<Rightarrow> None
      | row # rows \<Rightarrow> Some (longest_block row rows))"

text \<open>
  Modelled from the spec: the table \<open>sleep_wins_long_per_day\<close> that
  \<open>time_series2sleep_blocks\<close> returns beside the block table. Section 6: "rows
  of (start, end) - the subset with is_longest_block = true", one row per
  night interval that has a sleep block (section 4.4).
\<close>

definition sleep_wins_long_per_day :: "('w, 'z) sleep_win_scheme list \<Rightarrow> (int \<times> int) list" where
  "sleep_wins_long_per_day df =
     concat (map (\<lambda>iv. case interval_longest iv df of
                          None \<Rightarrow> []
                        | Some row \<Rightarrow> [(start_t row, end_t row)])
               (night_intervals df))"

section \<open>Block extraction, validation and gap filling (asleep.sleep\_windows)\<close>

text \<open>
  Modelled from the spec: the constants of \<open>asleep.sleep_windows\<close>, which is not
  among the sources, that the calls of \<open>get_sleep_windows\<close> leave to it: the
  binary label of sleep, the minimum duration of a valid sleep block
  (section 4.2) and the gap-fill threshold (section 4.3), the durations in the
  unit of the epoch length.
\<close>

record sw_settings =
  sleep_label :: int
  min_sleep_block :: int
  max_gap :: int

text \<open>
  Modelled from the spec: a block of \<open>asleep.sleep_windows\<close> (section 3), "a
  maximal run of consecutive
  epochs sharing the same (binary label, wear flag)", with the position of its
  first epoch in the series and the number of its epochs.
\<close>

record block =
  first_epoch :: nat
  n_epochs :: nat
  block_label :: "int option"
  block_wear :: bool

text \<open>
  Modelled from the spec: the Block Extractor \<open>find_sleep_block_duration\<close>
  (section 4.1), which "start[s] a new Block whenever (label, wear flag)
  differs from the previous epoch". \<open>find_blocks i\<close> extracts the blocks of a
  series whose first epoch has position \<open>i\<close>.
\<close>

fun find_blocks :: "nat \<Rightarrow> epoch list \<Rightarrow> block list" where
  "find_blocks i [] = []"
| "find_blocks i (e # es) =
     (case find_blocks (Suc i) es of
        [] \<Rightarrow> [\<lparr>first_epoch = i, n_epochs = 1, block_label = label e, block_wear = is_wear e\<rparr>]
      | b # bs \<Rightarrow>
          if block_label b = label e \<and> block_wear b = is_wear e
          then b\<lparr>first_epoch := i, n_epochs := Suc (n_epochs b)\<rparr> # bs
          else \<lparr>first_epoch = i, n_epochs = 1, block_label = label e, block_wear = is_wear e\<rparr>
                 # b # bs)"

definition find_sleep_block_duration :: "epoch list \<Rightarrow> block list" where
  "find_sleep_block_duration my_df = find_blocks 0 my_df"

text \<open>
  Modelled from the spec: the duration of a block in \<open>asleep.sleep_windows\<close>,
  "epoch_count x epoch_duration" (section 4.1).
\<close>

definition block_duration :: "int \<Rightarrow> block \<Rightarrow> int" where
  "block_duration epoch_length b = int (n_epochs b) * epoch_length"

text \<open>
  Modelled from the spec: a sleep block of \<open>asleep.sleep_windows\<close>, one that
  is labelled sleep and worn
  (section 4.2: "validity is defined only over sleep-labeled runs").
\<close>

definition is_sleep_block :: "sw_settings \<Rightarrow> block \<Rightarrow> bool" where
  "is_sleep_block st b = (block_label b = Some (sleep_label st) \<and> block_wear b)"

text \<open>
  Modelled from the spec: the Block Validator \<open>find_valid_sleep_blocks\<close>
  (section 4.2): the indices of the "sleep-labeled Blocks whose duration
  exceeds the threshold"; "non-sleep blocks and non-wear blocks are never
  valid".
\<close>

definition find_valid_sleep_blocks :: "sw_settings \<Rightarrow> block list \<Rightarrow> int \<Rightarrow> nat list" where
  "find_valid_sleep_blocks st counter epoch_length =
     filter (\<lambda>i. is_sleep_block st (counter ! i) \<and>
                  min_sleep_block st < block_duration epoch_length (counter ! i))
       [0..<length counter]"

text \<open>
  Modelled from the spec: a gap that \<open>find_gaps2fill\<close> is to fill
  (section 4.3): a gap is "a non-sleep or
  non-wear Block lying between two valid sleep blocks" (glossary), "not before
  the first or after the last", and it is filled "if its duration is below the
  ... threshold", "strict less-than".
\<close>

definition fillable_gap :: "sw_settings \<Rightarrow> nat list \<Rightarrow> int \<Rightarrow> block list \<Rightarrow> nat \<Rightarrow> bool" where
  "fillable_gap st valid_sleep_block_idxes epoch_length counter i =
     (\<not> is_sleep_block st (counter ! i) \<and>
      (\<exists>v\<in>set valid_sleep_block_idxes. v < i) \<and>
      (\<exists>v\<in>set valid_sleep_block_idxes. i < v) \<and>
      block_duration epoch_length (counter ! i) < max_gap st)"

text \<open>
  Modelled from the spec: \<open>find_gaps2fill\<close> (section 4.3), the indices of the
  blocks that are gaps to fill, each judged by itself on the blocks as given.
\<close>

definition find_gaps2fill :: "sw_settings \<Rightarrow> nat list \<Rightarrow> int \<Rightarrow> block list \<Rightarrow> nat list" where
  "find_gaps2fill st valid_sleep_block_idxes epoch_length counter =
     filter (fillable_gap st valid_sleep_block_idxes epoch_length counter) [0..<length counter]"

text \<open>
  Modelled from the spec: the epochs "inside" a gap of \<open>fill_gaps\<close>
  (section 4.3), by their
  position in the series and the boundaries of the gap's block in \<open>counter\<close>.
\<close>

definition in_gap :: "block list \<Rightarrow> nat \<Rightarrow> nat \<Rightarrow> bool" where
  "in_gap counter g j =
     (g < length counter \<and> first_epoch (counter ! g) \<le> j \<and>
      j < first_epoch (counter ! g) + n_epochs (counter ! g))"

text \<open>
  Modelled from the spec: filling one gap in \<open>fill_gaps\<close> (section 4.3).
  "Filling means: every
  epoch inside the filled Gap is relabeled to the sleep binary label; the wear
  flag is not altered."
\<close>

definition fill_gap :: "sw_settings \<Rightarrow> block list \<Rightarrow> nat \<Rightarrow> epoch list \<Rightarrow> epoch list" where
  "fill_gap st counter g my_df =
     map (\<lambda>(j, e). if in_gap counter g j then e\<lparr>label := Some (sleep_label st)\<rparr> else e)
       (enumerate 0 my_df)"

text \<open>
  Modelled from the spec: \<open>fill_gaps\<close> (section 4.3): the gaps are filled one
  after the other, in the order of the list, each within the boundaries of
  its block in \<open>counter\<close>.
\<close>

definition fill_gaps :: "sw_settings \<Rightarrow> epoch list \<Rightarrow> block list \<Rightarrow> nat list \<Rightarrow> epoch list" where
  "fill_gaps st my_df counter gap2fill = fold (fill_gap st counter) gap2fill my_df"

text \<open>
  Modelled from the spec: the fill that \<open>fill_gaps\<close> is to agree with, the one
  "computed from the original gap boundaries simultaneously" (section 4.3): one pass over the series that relabels the
  epochs of the given gaps and no other.
\<close>

definition fill_simultaneously ::
  "sw_settings \<Rightarrow> epoch list \<Rightarrow> block list \<Rightarrow> nat set \<Rightarrow> epoch list" where
  "fill_simultaneously st my_df counter gaps =
     map (\<lambda>(j, e). if \<exists>g\<in>gaps. in_gap counter g j then e\<lparr>label := Some (sleep_label st)\<rparr>
                    else e)
       (enumerate 0 my_df)"

text \<open>
  The calls of \<open>get_sleep_windows\<close>, lines 201-206: the blocks of the frame,
  the valid sleep blocks and the gaps to fill, each with the epoch length 30
  (\<open>epoch_length = 30\<close>, line 202) and nothing else, and the filled frame.
\<close>

definition gaps_to_fill :: "sw_settings \<Rightarrow> epoch list \<Rightarrow> nat list" where
  "gaps_to_fill st my_df =
     (let counter = find_sleep_block_duration my_df;
          epoch_length = 30;
          valid_sleep_block_idxes = find_valid_sleep_blocks st counter epoch_length
      in find_gaps2fill st valid_sleep_block_idxes epoch_length counter)"

definition gap_filled_frame :: "sw_settings \<Rightarrow> epoch list \<Rightarrow> epoch list" where
  "gap_filled_frame st my_df =
     (let counter = find_sleep_block_duration my_df;
          epoch_length = 30;
          valid_sleep_block_idxes = find_valid_sleep_blocks st counter epoch_length;
          gap2fill = find_gaps2fill st valid_sleep_block_idxes epoch_length counter
      in fill_gaps st my_df counter gap2fill)"

section \<open>Properties of the array operations\<close>

lemma count_true_simps [simp]:
  "count_true [] = 0"
  "count_true (m # ms) = (if m then Suc (count_true ms) else count_true ms)"
  by (simp_all add: count_true_def)

lemma length_put_values [simp]: "length (put_values xs ms vs) = length xs"
  by (induction xs ms vs rule: put_values.induct) simp_all

lemma put_values_nth:
  "length ms = length xs \<Longrightarrow> j < length xs \<Longrightarrow> count_true ms \<le> length vs \<Longrightarrow>
   put_values xs ms vs ! j = (if ms ! j then vs ! count_true (take j ms) else xs ! j)"
proof (induction xs ms vs arbitrary: j rule: put_values.induct)
  case (3 x xs ms v vs)
  then show ?case by (cases j) simp_all
next
  case (5 x xs ms vs)
  then show ?case by (cases j) simp_all
qed simp_all

lemma count_true_take_le: "count_true (take j ms) \<le> count_true ms"
  by (induction ms arbitrary: j) (auto simp: take_Cons split: nat.splits)

lemma count_true_take_lt:
  "j < length ms \<Longrightarrow> ms ! j \<Longrightarrow> count_true (take j ms) < count_true ms"
proof (induction ms arbitrary: j)
  case Nil
  then show ?case by simp
next
  case (Cons m ms)
  show ?case
  proof (cases j)
    case 0
    with Cons.prems show ?thesis by simp
  next
    case (Suc k)
    with Cons.prems have "count_true (take k ms) < count_true ms"
      by (intro Cons.IH) simp_all
    with Suc show ?thesis by simp
  qed
qed

text \<open>
  An assignment whose value array has one entry per true position of the mask
  succeeds and writes the values in order.
\<close>

lemma bool_assign_aligned:
  assumes "length msk = length a" and "length v = count_true msk"
  shows "\<exists>out. bool_assign a msk v = Inr out \<and> length out = length a \<and>
           (\<forall>j<length a. out ! j = (if msk ! j then v ! count_true (take j msk) else a ! j))"
proof (cases "length v = 1")
  case False
  with assms have "bool_assign a msk v = Inr (put_values a msk v)"
    by (simp add: bool_assign_def)
  moreover have "\<forall>j<length a. put_values a msk v ! j =
      (if msk ! j then v ! count_true (take j msk) else a ! j)"
    using assms by (simp add: put_values_nth)
  ultimately show ?thesis by simp
next
  case True
  let ?out = "map (\<lambda>(x, m). if m then hd v else x) (zip a msk)"
  from True assms have eq: "bool_assign a msk v = Inr ?out"
    by (simp add: bool_assign_def)
  have "?out ! j = (if msk ! j then v ! count_true (take j msk) else a ! j)"
    if j: "j < length a" for j
  proof (cases "msk ! j")
    case False
    with j assms show ?thesis by simp
  next
    case m: True
    from j assms m have "count_true (take j msk) < count_true msk"
      by (intro count_true_take_lt) simp_all
    with True assms have "count_true (take j msk) = 0" by simp
    moreover from True have "v \<noteq> []" by auto
    ultimately show ?thesis using j assms m by (simp add: hd_conv_nth)
  qed
  with eq assms show ?thesis by simp
qed

lemma bool_assign_cases:
  "length msk = length a \<Longrightarrow>
   bool_assign a msk v = Inl ValueError \<or>
   (\<exists>out. bool_assign a msk v = Inr out \<and> length out = length a)"
  by (simp add: bool_assign_def)

lemma bool_index_block_preds:
  "length y_pred = length test_pids \<Longrightarrow>
   bool_index y_pred (map (\<lambda>p. p = int b) test_pids) = Inr (block_preds y_pred test_pids b)"
  by (simp add: bool_index_def block_preds_def)

lemma time_filter_nth [simp]:
  "j < length tms \<Longrightarrow> time_filter tms (start_t row) (end_t row) ! j = in_block row (tms ! j)"
  by (simp add: time_filter_def in_block_def)

lemma length_time_filter [simp]: "length (time_filter tms s e) = length tms"
  by (simp add: time_filter_def)

section \<open>Properties of the stitching loop\<close>

lemma stitch_blocks_snoc:
  "stitch_blocks tms y_pred test_pids (brs @ [(b, r)]) out =
     (case stitch_blocks tms y_pred test_pids brs out of
        Inl e \<Rightarrow> Inl e
      | Inr out' \<Rightarrow>
          (case bool_index y_pred (map (\<lambda>p. p = int b) test_pids) of
             Inl e \<Rightarrow> Inl e
           | Inr sleepnet_pred \<Rightarrow>
               bool_assign out' (time_filter tms (start_t r) (end_t r)) sleepnet_pred))"
  by (induction brs arbitrary: out) (auto split: sum.splits)

lemma stitch_snoc:
  "stitch tms binary_y y_pred test_pids (df @ [r]) =
     (case stitch tms binary_y y_pred test_pids df of
        Inl e \<Rightarrow> Inl e
      | Inr out' \<Rightarrow>
          (case bool_index y_pred (map (\<lambda>p. p = int (length df)) test_pids) of
             Inl e \<Rightarrow> Inl e
           | Inr sleepnet_pred \<Rightarrow>
               bool_assign out' (time_filter tms (start_t r) (end_t r)) sleepnet_pred))"
  by (simp add: stitch_def enumerate_append_eq stitch_blocks_snoc)

lemma stitch_Nil [simp]: "stitch tms binary_y y_pred test_pids [] = Inr binary_y"
  by (simp add: stitch_def)

text \<open>
  With arrays of matching lengths the only exception the loop can raise is the
  ValueError of the assignment, and a result has one entry per epoch.
\<close>

lemma stitch_cases:
  assumes "length binary_y = length tms" and "length y_pred = length test_pids"
  shows "stitch tms binary_y y_pred test_pids df = Inl ValueError \<or>
         (\<exists>out. stitch tms binary_y y_pred test_pids df = Inr out \<and> length out = length tms)"
proof (induction df rule: rev_induct)
  case Nil
  from assms show ?case by simp
next
  case (snoc r df)
  from snoc show ?case
  proof
    assume "stitch tms binary_y y_pred test_pids df = Inl ValueError"
    then show ?thesis by (simp add: stitch_snoc)
  next
    assume "\<exists>out. stitch tms binary_y y_pred test_pids df = Inr out \<and> length out = length tms"
    then obtain out where out: "stitch tms binary_y y_pred test_pids df = Inr out"
      and len: "length out = length tms" by blast
    from len have "length (time_filter tms (start_t r) (end_t r)) = length out" by simp
    from bool_assign_cases [OF this, of "block_preds y_pred test_pids (length df)"] len out assms(2)
    show ?thesis by (auto simp: stitch_snoc bool_index_block_preds)
  qed
qed

lemma stitch_mismatch_raises:
  assumes len: "length binary_y = length tms" "length y_pred = length test_pids"
    and b: "b < length df"
    and ne: "length (block_preds y_pred test_pids b) \<noteq> block_epochs tms (df ! b)"
    and n1: "length (block_preds y_pred test_pids b) \<noteq> 1"
  shows "stitch tms binary_y y_pred test_pids df = Inl ValueError"
  using b ne
proof (induction df rule: rev_induct)
  case Nil
  then show ?case by simp
next
  case (snoc r df)
  show ?case
  proof (cases "b < length df")
    case True
    with snoc.prems have "length (block_preds y_pred test_pids b) \<noteq> block_epochs tms (df ! b)"
      by (simp add: nth_append)
    with True snoc.IH have "stitch tms binary_y y_pred test_pids df = Inl ValueError" by simp
    then show ?thesis by (simp add: stitch_snoc)
  next
    case False
    with snoc.prems have b_eq: "b = length df" by simp
    with snoc.prems have ne': "length (block_preds y_pred test_pids (length df)) \<noteq> block_epochs tms r"
      by simp
    from stitch_cases [OF len, of df] show ?thesis
    proof
      assume "stitch tms binary_y y_pred test_pids df = Inl ValueError"
      then show ?thesis by (simp add: stitch_snoc)
    next
      assume "\<exists>out. stitch tms binary_y y_pred test_pids df = Inr out \<and> length out = length tms"
      then obtain out where out: "stitch tms binary_y y_pred test_pids df = Inr out"
        and lo: "length out = length tms" by blast
      from ne' n1 b_eq lo
      have "bool_assign out (time_filter tms (start_t r) (end_t r))
              (block_preds y_pred test_pids (length df)) = Inl ValueError"
        by (auto simp: bool_assign_def block_epochs_def)
      with out len show ?thesis by (simp add: stitch_snoc bool_index_block_preds)
    qed
  qed
qed

lemma stitch_aligned:
  assumes len: "length binary_y = length tms" "length y_pred = length test_pids"
    and cnt: "\<forall>b<length df. length (block_preds y_pred test_pids b) = block_epochs tms (df ! b)"
  shows "\<exists>out. stitch tms binary_y y_pred test_pids df = Inr out \<and> length out = length tms \<and>
           (\<forall>j<length tms. (\<forall>b<length df. \<not> in_block (df ! b) (tms ! j)) \<longrightarrow>
               out ! j = binary_y ! j) \<and>
           (\<forall>j<length tms. \<forall>b<length df.
               in_block (df ! b) (tms ! j) \<and>
               (\<forall>b'<length df. b < b' \<longrightarrow> \<not> in_block (df ! b') (tms ! j)) \<longrightarrow>
               out ! j = block_preds y_pred test_pids b ! rank_in_block tms (df ! b) j)"
  using cnt
proof (induction df rule: rev_induct)
  case Nil
  from len show ?case by simp
next
  case (snoc r df)
  let ?tf = "time_filter tms (start_t r) (end_t r)"
  let ?sp = "block_preds y_pred test_pids (length df)"
  have "length (block_preds y_pred test_pids b) = block_epochs tms (df ! b)"
    if "b < length df" for b
    using snoc.prems [rule_format, of b] that by (simp add: nth_append)
  then have "\<forall>b<length df. length (block_preds y_pred test_pids b) = block_epochs tms (df ! b)"
    by simp
  from snoc.IH [OF this]
  obtain out0 where out0: "stitch tms binary_y y_pred test_pids df = Inr out0"
    and l0: "length out0 = length tms"
    and keep0: "\<And>j. j < length tms \<Longrightarrow> \<forall>b<length df. \<not> in_block (df ! b) (tms ! j) \<Longrightarrow>
                 out0 ! j = binary_y ! j"
    and ref0: "\<And>j b. j < length tms \<Longrightarrow> b < length df \<Longrightarrow> in_block (df ! b) (tms ! j) \<Longrightarrow>
                 \<forall>b'<length df. b < b' \<longrightarrow> \<not> in_block (df ! b') (tms ! j) \<Longrightarrow>
                 out0 ! j = block_preds y_pred test_pids b ! rank_in_block tms (df ! b) j"
    by blast
  from snoc.prems [rule_format, of "length df"] have "length ?sp = block_epochs tms r"
    by simp
  then have "length ?sp = count_true ?tf" by (simp add: block_epochs_def)
  moreover from l0 have "length ?tf = length out0" by simp
  ultimately obtain out1 where a1: "bool_assign out0 ?tf ?sp = Inr out1"
    and l1: "length out1 = length out0"
    and n1: "\<And>j. j < length out0 \<Longrightarrow>
               out1 ! j = (if ?tf ! j then ?sp ! count_true (take j ?tf) else out0 ! j)"
    using bool_assign_aligned [of ?tf out0 ?sp] by blast
  from out0 a1 len have res: "stitch tms binary_y y_pred test_pids (df @ [r]) = Inr out1"
    by (simp add: stitch_snoc bool_index_block_preds)
  have keep1: "out1 ! j = binary_y ! j"
    if j: "j < length tms" and no: "\<forall>b<length (df @ [r]). \<not> in_block ((df @ [r]) ! b) (tms ! j)" for j
  proof -
    from no have "\<not> in_block r (tms ! j)" by (auto simp: nth_append split: if_splits)
    moreover from no have "\<forall>b<length df. \<not> in_block (df ! b) (tms ! j)"
      by (auto simp: nth_append split: if_splits)
    ultimately show ?thesis using n1 [of j] j l0 keep0 [of j] by simp
  qed
  have ref1: "out1 ! j = block_preds y_pred test_pids b ! rank_in_block tms ((df @ [r]) ! b) j"
    if j: "j < length tms" and b: "b < length (df @ [r])"
      and inb: "in_block ((df @ [r]) ! b) (tms ! j)"
      and last: "\<forall>b'<length (df @ [r]). b < b' \<longrightarrow> \<not> in_block ((df @ [r]) ! b') (tms ! j)" for j b
  proof (cases "b < length df")
    case True
    with last have nr: "\<not> in_block r (tms ! j)" by (auto simp: nth_append split: if_splits)
    from last have "\<forall>b'<length df. b < b' \<longrightarrow> \<not> in_block (df ! b') (tms ! j)"
      by (auto simp: nth_append split: if_splits)
    with ref0 [of j b] j True inb
    have "out0 ! j = block_preds y_pred test_pids b ! rank_in_block tms (df ! b) j"
      by (simp add: nth_append)
    with nr n1 [of j] j l0 True show ?thesis by (simp add: nth_append)
  next
    case False
    with b have b_eq: "b = length df" by simp
    with inb have "in_block r (tms ! j)" by simp
    with n1 [of j] j l0 b_eq show ?thesis by (simp add: rank_in_block_def)
  qed
  from l1 l0 have l1': "length out1 = length tms" by simp
  from keep1
  have K: "\<forall>j<length tms. (\<forall>b<length (df @ [r]). \<not> in_block ((df @ [r]) ! b) (tms ! j)) \<longrightarrow>
             out1 ! j = binary_y ! j"
    by simp
  have R: "\<forall>j<length tms. \<forall>b<length (df @ [r]).
             in_block ((df @ [r]) ! b) (tms ! j) \<and>
             (\<forall>b'<length (df @ [r]). b < b' \<longrightarrow> \<not> in_block ((df @ [r]) ! b') (tms ! j)) \<longrightarrow>
             out1 ! j = block_preds y_pred test_pids b ! rank_in_block tms ((df @ [r]) ! b) j"
  proof (intro allI impI)
    fix j b
    assume "j < length tms" "b < length (df @ [r])"
      and "in_block ((df @ [r]) ! b) (tms ! j) \<and>
           (\<forall>b'<length (df @ [r]). b < b' \<longrightarrow> \<not> in_block ((df @ [r]) ! b') (tms ! j))"
    then show "out1 ! j = block_preds y_pred test_pids b ! rank_in_block tms ((df @ [r]) ! b) j"
      by (intro ref1) (erule conjunct1 conjunct2 | assumption)+
  qed
  show ?case by (intro exI [of _ out1] conjI; fact)
qed

section \<open>Claims about the Result Stitcher\<close>

text \<open>
  Claim C1, as amended. The stitching loop has no alignment check of its own:
  a wrong number of refined predictions is caught only by the array assignment
  \<open>sleepnet_output[time_filter] = sleepnet_pred\<close>. If for some block id the
  number of refined predictions returned for the block differs from the number
  of epochs in the block's \<open>[start, end)\<close> and is not 1, stitching ends with the
  ValueError of that assignment, and no label array is produced: nothing is
  truncated.
\<close>

theorem C1_mismatch_raises_ValueError:
  assumes "length binary_y = length tms" and "length y_pred = length test_pids"
    and "b < length df"
    and "length (block_preds y_pred test_pids b) \<noteq> block_epochs tms (df ! b)"
    and "length (block_preds y_pred test_pids b) \<noteq> 1"
  shows "stitch tms binary_y y_pred test_pids df = Inl ValueError"
  using assms by (rule stitch_mismatch_raises)

text \<open>
  An instance of C1: three epochs in the block, two refined predictions.
\<close>

theorem C1_mismatch_witness:
  "stitch [0, 30, 60] [1, 1, 1 :: int] [2, 3] [0, 0]
     [\<lparr>start_t = 0, end_t = 90, interval_start = 0, interval_end = 86400,
       wear_duration_H = ()\<rparr>] = Inl ValueError"
  using C1_mismatch_raises_ValueError [of "[1, 1, 1 :: int]" "[0, 30, 60]" "[2, 3]" "[0, 0]" 0
      "[\<lparr>start_t = 0, end_t = 90, interval_start = 0, interval_end = 86400,
         wear_duration_H = ()\<rparr>]"]
  by (simp add: block_preds_def block_epochs_def time_filter_def)

text \<open>
  Claim C1 as stated fails when exactly one refined prediction is returned for
  a block of several epochs: the count differs from the number of epochs (1
  against 3), no error is raised, and the single prediction is broadcast to
  every epoch of the block.
\<close>

theorem C1_broadcast_counterexample:
  "length (block_preds [2 :: int] [0] 0) = 1 \<and>
   block_epochs [0, 30, 60]
     \<lparr>start_t = 0, end_t = 90, interval_start = 0, interval_end = 86400,
      wear_duration_H = ()\<rparr> = 3 \<and>
   stitch [0, 30, 60] [1, 1, 1 :: int] [2] [0]
     [\<lparr>start_t = 0, end_t = 90, interval_start = 0, interval_end = 86400,
       wear_duration_H = ()\<rparr>] = Inr [2, 2, 2]"
  by (simp add: block_preds_def block_epochs_def time_filter_def stitch_def
      bool_index_def bool_assign_def)

text \<open>
  Claim C2. When every block id has one refined prediction per epoch of its
  block, stitching succeeds and the stitched array has exactly one entry per
  epoch of the series. The entry of an epoch whose timestamp lies in no block's
  \<open>[start, end)\<close> is the original binary label. The entry of an epoch whose
  timestamp lies in a block is the refined prediction of that block at the
  epoch's chronological rank within the block; should several rows of the
  table contain the timestamp, the last of them in row order is the one that
  counts (the containing block, when the blocks do not overlap).
\<close>

theorem C2_stitched_labels:
  assumes "length binary_y = length tms" and "length y_pred = length test_pids"
    and "\<forall>b<length df. length (block_preds y_pred test_pids b) = block_epochs tms (df ! b)"
  shows "\<exists>out. stitch tms binary_y y_pred test_pids df = Inr out \<and> length out = length tms \<and>
           (\<forall>j<length tms. (\<forall>b<length df. \<not> in_block (df ! b) (tms ! j)) \<longrightarrow>
               out ! j = binary_y ! j) \<and>
           (\<forall>j<length tms. \<forall>b<length df.
               in_block (df ! b) (tms ! j) \<and>
               (\<forall>b'<length df. b < b' \<longrightarrow> \<not> in_block (df ! b') (tms ! j)) \<longrightarrow>
               out ! j = block_preds y_pred test_pids b ! rank_in_block tms (df ! b) j)"
  using assms by (rule stitch_aligned)

text \<open>
  An instance of C2: four epochs, one block holding the second and the third.
\<close>

theorem C2_stitched_labels_witness:
  "\<exists>out. stitch [0, 30, 60, 90] [0, 1, 1, 0 :: int] [2, 3] [0, 0]
            [\<lparr>start_t = 30, end_t = 90, interval_start = 0, interval_end = 86400,
              wear_duration_H = ()\<rparr>] = Inr out \<and>
         length out = 4 \<and> out ! 0 = 0 \<and> out ! 1 = 2 \<and> out ! 2 = 3 \<and> out ! 3 = 0"
proof -
  let ?r = "\<lparr>start_t = 30, end_t = 90, interval_start = 0, interval_end = 86400,
             wear_duration_H = ()\<rparr>"
  have "\<exists>out. stitch [0, 30, 60, 90] [0, 1, 1, 0 :: int] [2, 3] [0, 0] [?r] = Inr out \<and>
          length out = length [0, 30, 60, 90 :: int] \<and>
          (\<forall>j<length [0, 30, 60, 90 :: int].
              (\<forall>b<length [?r]. \<not> in_block ([?r] ! b) ([0, 30, 60, 90] ! j)) \<longrightarrow>
              out ! j = [0, 1, 1, 0] ! j) \<and>
          (\<forall>j<length [0, 30, 60, 90 :: int]. \<forall>b<length [?r].
              in_block ([?r] ! b) ([0, 30, 60, 90] ! j) \<and>
              (\<forall>b'<length [?r]. b < b' \<longrightarrow> \<not> in_block ([?r] ! b') ([0, 30, 60, 90] ! j)) \<longrightarrow>
              out ! j = block_preds [2, 3] [0, 0] b ! rank_in_block [0, 30, 60, 90] ([?r] ! b) j)"
    by (rule C2_stitched_labels)
      (simp_all add: block_preds_def block_epochs_def time_filter_def)
  then obtain out where res: "stitch [0, 30, 60, 90] [0, 1, 1, 0 :: int] [2, 3] [0, 0] [?r] = Inr out"
    and len: "length out = 4"
    and keep: "\<And>j. j < 4 \<Longrightarrow> \<not> in_block ?r ([0, 30, 60, 90] ! j) \<Longrightarrow>
                 out ! j = [0, 1, 1, 0] ! j"
    and ref: "\<And>j. j < 4 \<Longrightarrow> in_block ?r ([0, 30, 60, 90] ! j) \<Longrightarrow>
                 out ! j = block_preds [2, 3] [0, 0] 0 ! rank_in_block [0, 30, 60, 90] ?r j"
    by auto
  from keep [of 0] have "out ! 0 = 0" by (simp add: in_block_def)
  moreover from keep [of 3] have "out ! 3 = 0" by (simp add: in_block_def)
  moreover from ref [of 1] have "out ! 1 = 2"
    by (simp add: in_block_def block_preds_def rank_in_block_def time_filter_def)
  moreover from ref [of 2] have "out ! 2 = 3"
    by (simp add: in_block_def block_preds_def rank_in_block_def time_filter_def)
  ultimately show ?thesis using res len by simp
qed

section \<open>Properties of the mapping, the coarse prediction and the labels\<close>


lemma bool_index_time_filter:
  "length acc_array = length tms \<Longrightarrow>
   bool_index acc_array (time_filter tms (start_t row) (end_t row)) =
     Inr (map snd (epochs_of_block tms acc_array row))"
proof -
  have "map fst (filter snd (zip xs (map P ts))) = map snd (filter (\<lambda>(t, x). P t) (zip ts xs))"
    if "length xs = length ts" for xs :: "'a list" and ts :: "int list" and P
    using that by (induction xs ts rule: list_induct2) simp_all
  then show "length acc_array = length tms \<Longrightarrow> ?thesis"
    by (simp add: bool_index_def time_filter_def epochs_of_block_def in_block_def)
qed

lemma length_epochs_of_block:
  "length acc_array = length tms \<Longrightarrow>
   length (epochs_of_block tms acc_array row) = block_epochs tms row"
proof -
  have "length (filter (\<lambda>(t, x). P t) (zip ts xs)) = count_true (map P ts)"
    if "length xs = length ts" for xs :: "'a list" and ts :: "int list" and P
    using that by (induction xs ts rule: list_induct2) simp_all
  then show "length acc_array = length tms \<Longrightarrow> ?thesis"
    by (simp add: block_epochs_def time_filter_def epochs_of_block_def in_block_def)
qed

lemma get_master_df_loop_eq:
  assumes "length acc_array = length tms" and "length master_acc = length master_npids"
  shows "get_master_df_loop brs tms acc_array (master_acc, master_npids) =
           Inr (master_acc @ concat (map (\<lambda>(i, row). map snd (epochs_of_block tms acc_array row)) brs),
                master_npids @ concat (map (\<lambda>(i, row). replicate (block_epochs tms row) (int i)) brs))"
  using assms(2)
proof (induction brs arbitrary: master_acc master_npids)
  case Nil
  then show ?case by simp
next
  case (Cons br brs)
  obtain i row where br: "br = (i, row)" by (cases br)
  let ?cur = "map snd (epochs_of_block tms acc_array row)"
  let ?pid = "replicate (block_epochs tms row) (int i)"
  have lc: "length ?cur = length ?pid"
    using assms(1) by (simp add: length_epochs_of_block)
  show ?case
  proof (cases "length master_npids = 0")
    case True
    with Cons.prems have e: "master_acc = []" "master_npids = []" by simp_all
    from lc have "get_master_df_loop brs tms acc_array (?cur, ?pid) =
        Inr (?cur @ concat (map (\<lambda>(i, row). map snd (epochs_of_block tms acc_array row)) brs),
             ?pid @ concat (map (\<lambda>(i, row). replicate (block_epochs tms row) (int i)) brs))"
      by (rule Cons.IH)
    with e br assms(1) show ?thesis
      by (simp add: bool_index_time_filter block_epochs_def)
  next
    case False
    from lc Cons.prems have "length (master_acc @ ?cur) = length (master_npids @ ?pid)" by simp
    then have "get_master_df_loop brs tms acc_array (master_acc @ ?cur, master_npids @ ?pid) =
        Inr ((master_acc @ ?cur) @ concat (map (\<lambda>(i, row). map snd (epochs_of_block tms acc_array row)) brs),
             (master_npids @ ?pid) @ concat (map (\<lambda>(i, row). replicate (block_epochs tms row) (int i)) brs))"
      by (rule Cons.IH)
    with False br assms(1) show ?thesis
      by (simp add: bool_index_time_filter block_epochs_def)
  qed
qed

lemma map_enumerate_snd:
  "map (\<lambda>(i, row). f row) (enumerate n xs) = map f xs"
  by (induction xs arbitrary: n) simp_all

lemma sorted_epochs_of_block:
  assumes "sorted tms"
  shows "sorted (map fst (epochs_of_block tms acc_array row))"
proof -
  from assms have "sorted (map fst (zip tms acc_array))"
    by (simp add: map_fst_zip_take sorted_wrt_take)
  then show ?thesis unfolding epochs_of_block_def by (rule sorted_filter)
qed

lemma get_master_df_eq:
  assumes "length acc_array = length tms"
  shows "\<exists>master_acc master_npids.
           get_master_df df tms acc_array = Inr (master_acc, master_npids) \<and>
           master_acc = concat (map (\<lambda>row. map snd (epochs_of_block tms acc_array row)) df) \<and>
           master_npids = concat (map (\<lambda>(i, row). replicate (block_epochs tms row) (int i))
                                    (enumerate 0 df)) \<and>
           length master_npids = sum_list (map (block_epochs tms) df) \<and>
           length master_acc = length master_npids \<and>
           (sorted tms \<longrightarrow> (\<forall>row\<in>set df. sorted (map fst (epochs_of_block tms acc_array row))))"
proof -
  have "get_master_df df tms acc_array =
      Inr (concat (map (\<lambda>row. map snd (epochs_of_block tms acc_array row)) df),
           concat (map (\<lambda>(i, row). replicate (block_epochs tms row) (int i)) (enumerate 0 df)))"
    using get_master_df_loop_eq [OF assms, of "[]" "[]" "enumerate 0 df"]
    by (simp add: get_master_df_def map_enumerate_snd)
  moreover have "length (concat (map (\<lambda>(i, row). replicate (block_epochs tms row) (int i)) (enumerate n df)))
      = sum_list (map (block_epochs tms) df)" for n
    by (induction df arbitrary: n) simp_all
  moreover have "length (concat (map (\<lambda>row. map snd (epochs_of_block tms acc_array row)) df))
      = sum_list (map (block_epochs tms) df)"
    using assms by (induction df) (simp_all add: length_epochs_of_block)
  ultimately show ?thesis by (simp add: sorted_epochs_of_block)
qed

lemma count_true_zip:
  "length a = length msk \<Longrightarrow> length (filter snd (zip a msk)) = count_true msk"
  by (induction a msk rule: list_induct2) simp_all

lemma put_values_extract:
  "length ms = length xs \<Longrightarrow> count_true ms = length vs \<Longrightarrow>
   map fst (filter snd (zip (put_values xs ms vs) ms)) = vs"
  by (induction xs ms vs rule: put_values.induct) simp_all

lemma broadcast_extract:
  "length a = length msk \<Longrightarrow>
   map fst (filter snd (zip (map (\<lambda>(x, m). if m then c else x) (zip a msk)) msk)) =
     replicate (count_true msk) c"
  by (induction a msk rule: list_induct2) simp_all

lemma bool_assign_extract:
  assumes "length msk = length a" and "length v = count_true msk"
    and "bool_assign a msk v = Inr out"
  shows "map fst (filter snd (zip out msk)) = v"
proof (cases "length v = 1")
  case False
  with assms show ?thesis
    by (auto simp: bool_assign_def put_values_extract split: if_splits)
next
  case True
  then obtain c where v: "v = [c]" by (cases v) auto
  with assms have "out = map (\<lambda>(x, m). if m then c else x) (zip a msk)"
    by (auto simp: bool_assign_def)
  moreover from assms(2) v have "count_true msk = Suc 0" by simp
  ultimately show ?thesis using assms(1) v by (simp add: broadcast_extract)
qed

lemma predict_sleep_windows_computed:
  assumes "ssl_sleep = None \<or> force_run args"
    and "length non_wear = length data2model" and "length non_wear = length tms"
    and "\<And>X. length (predict X) = length X"
  shows "\<exists>sp. predict_sleep_windows predict data2model tms non_wear args ssl_sleep =
              Inr (sp, Some sp) \<and>
           length sp = length tms \<and>
           (\<forall>i<length tms. non_wear ! i \<longrightarrow> sp ! i = - 1) \<and>
           (\<forall>i<length tms. \<not> non_wear ! i \<longrightarrow>
              sp ! i = window_predictions predict data2model non_wear !
                         count_true (take i (map Not non_wear))) \<and>
           map fst (filter snd (zip sp (map Not non_wear))) =
             window_predictions predict data2model non_wear"
proof -
  let ?msk = "map Not non_wear"
  let ?a = "replicate (length tms) NON_WEAR_PREDICTION_FLAG"
  let ?wp = "window_predictions predict data2model non_wear"
  from assms(2) have idx: "bool_index data2model ?msk =
      Inr (map fst (filter snd (zip data2model ?msk)))"
    by (simp add: bool_index_def)
  from assms(2,4) have lw: "length ?wp = count_true ?msk"
    by (simp add: window_predictions_def count_true_zip)
  from assms(3) have lm: "length ?msk = length ?a" by simp
  from bool_assign_aligned [OF lm lw]
  obtain sp where a: "bool_assign ?a ?msk ?wp = Inr sp" and ls: "length sp = length ?a"
    and nth: "\<And>j. j < length ?a \<Longrightarrow>
               sp ! j = (if ?msk ! j then ?wp ! count_true (take j ?msk) else ?a ! j)"
    by blast
  from assms(1) idx a
  have res: "predict_sleep_windows predict data2model tms non_wear args ssl_sleep =
      Inr (sp, Some sp)"
    by (simp add: predict_sleep_windows_def window_predictions_def Let_def)
  have nw: "sp ! i = - 1" if "i < length tms" "non_wear ! i" for i
    using nth [of i] that assms(3) by (simp add: NON_WEAR_PREDICTION_FLAG_def)
  have w: "sp ! i = ?wp ! count_true (take i ?msk)" if "i < length tms" "\<not> non_wear ! i" for i
    using nth [of i] that assms(3) by simp
  from bool_assign_extract [OF lm lw a]
  have ex: "map fst (filter snd (zip sp ?msk)) = ?wp" .
  from res ls nw w ex show ?thesis by simp
qed

lemma sleep_window_frame_wear:
  assumes "sleep_window_frame SLEEPNET_LABELS tms sleep_prediction = Inr my_df"
  shows "length my_df = length tms \<and>
         map label my_df = map SLEEPNET_LABELS sleep_prediction \<and>
         (\<forall>e\<in>set my_df. (\<not> is_wear e) = (label e = Some (- 1)))"
proof -
  from assms obtain binary_y where
    b: "binary_labels SLEEPNET_LABELS sleep_prediction = Inr binary_y"
    and m: "make_my_df tms binary_y = Inr my_df"
    by (auto simp: sleep_window_frame_def split: sum.splits)
  from b have by_eq: "binary_y = map SLEEPNET_LABELS sleep_prediction"
    by (auto simp: binary_labels_def vectorize_get_def Let_def split: if_splits)
  from m have len: "length binary_y = length tms"
    and df: "my_df = map (\<lambda>(t, y). \<lparr>time = t, label = y,
                is_wear = (y \<noteq> Some NON_WEAR_PREDICTION_FLAG)\<rparr>) (zip tms binary_y)"
    by (auto simp: make_my_df_def split: if_splits)
  from df len have "length my_df = length tms" by simp
  moreover from df len have "map label my_df = binary_y"
    by (simp add: map_idI comp_def case_prod_unfold) 
  moreover from df have "\<forall>e\<in>set my_df. (\<not> is_wear e) = (label e = Some (- 1))"
    by (auto simp: NON_WEAR_PREDICTION_FLAG_def)
  ultimately show ?thesis using by_eq by simp
qed


section \<open>Claims about the mapping, the coarse prediction and the labels\<close>

text \<open>
  Claim C5. For a data array with one entry per epoch, \<open>get_master_df\<close>
  returns, for the rows of the block table in row order, the entries of the
  epochs whose timestamp \<open>t\<close> satisfies \<open>start \<le> t < end\<close> of the row, in the
  order of the series, one block after the other, and beside them the row
  index of the block once per such epoch. The length of the mapping is the
  total number of epochs covered by blocks, and in a chronologically ordered
  series the epochs of each block are in chronological order.
\<close>

theorem C5_block_to_epoch_mapping:
  assumes "length acc_array = length tms"
  shows "\<exists>master_acc master_npids.
           get_master_df df tms acc_array = Inr (master_acc, master_npids) \<and>
           master_acc = concat (map (\<lambda>row. map snd (epochs_of_block tms acc_array row)) df) \<and>
           master_npids = concat (map (\<lambda>(i, row). replicate (block_epochs tms row) (int i))
                                    (enumerate 0 df)) \<and>
           length master_npids = sum_list (map (block_epochs tms) df) \<and>
           length master_acc = length master_npids \<and>
           (sorted tms \<longrightarrow> (\<forall>row\<in>set df. sorted (map fst (epochs_of_block tms acc_array row))))"
  using assms by (rule get_master_df_eq)

text \<open>An instance of C5: five epochs, two blocks of two epochs each.\<close>

theorem C5_block_to_epoch_mapping_witness:
  "get_master_df
     [\<lparr>start_t = 0, end_t = 60, interval_start = 0, interval_end = 86400,
       wear_duration_H = ()\<rparr>,
      \<lparr>start_t = 90, end_t = 150, interval_start = 0, interval_end = 86400,
       wear_duration_H = ()\<rparr>]
     [0, 30, 60, 90, 120] [10, 11, 12, 13, 14 :: nat] = Inr ([10, 11, 13, 14], [0, 0, 1, 1])"
  using C5_block_to_epoch_mapping [of "[10, 11, 12, 13, 14 :: nat]" "[0, 30, 60, 90, 120]"
      "[\<lparr>start_t = 0, end_t = 60, interval_start = 0, interval_end = 86400,
         wear_duration_H = ()\<rparr>,
        \<lparr>start_t = 90, end_t = 150, interval_start = 0, interval_end = 86400,
         wear_duration_H = ()\<rparr>]"]
  by (simp add: epochs_of_block_def in_block_def block_epochs_def time_filter_def)

text \<open>
  Claim C7. In the data frame \<open>my_df\<close> built from the coarse predictions, the
  wear flag of an epoch is false if and only if its binary label is the
  non-wear value -1; every other label (a missing table entry included) has the
  wear flag true. The frame has one row per epoch, and the labels are the
  table's values for the coarse predictions.
\<close>

theorem C7_wear_flag:
  assumes "sleep_window_frame SLEEPNET_LABELS tms sleep_prediction = Inr my_df"
  shows "length my_df = length tms \<and>
         map label my_df = map SLEEPNET_LABELS sleep_prediction \<and>
         (\<forall>e\<in>set my_df. (\<not> is_wear e) = (label e = Some (- 1)))"
  using assms by (rule sleep_window_frame_wear)

text \<open>An instance of C7: a non-wear epoch, a wake epoch and a sleep epoch.\<close>

theorem C7_wear_flag_witness:
  "\<exists>my_df. sleep_window_frame (map_of [(- 1, - 1), (0, 0), (1, 1)]) [0, 30, 60] [- 1, 0, 1]
             = Inr my_df \<and>
     map label my_df = [Some (- 1), Some 0, Some 1] \<and>
     map is_wear my_df = [False, True, True]"
proof -
  let ?df = "[\<lparr>time = 0, label = Some (- 1), is_wear = False\<rparr>,
              \<lparr>time = 30, label = Some 0, is_wear = True\<rparr>,
              \<lparr>time = 60, label = Some 1, is_wear = True\<rparr>]"
  have e: "sleep_window_frame (map_of [(- 1, - 1), (0, 0), (1, 1)]) [0, 30, 60] [- 1, 0, 1]
             = Inr ?df"
    by (simp add: sleep_window_frame_def binary_labels_def vectorize_get_def make_my_df_def
        NON_WEAR_PREDICTION_FLAG_def)
  from C7_wear_flag [OF e] have "map label ?df = [Some (- 1), Some 0, Some 1]" by simp
  with e show ?thesis by simp
qed

text \<open>
  Claim C10. When the coarse prediction is computed (there is no saved
  \<open>ssl_sleep.npy\<close>, or the run is forced), the arrays have one entry per epoch
  and the detector returns one prediction per window it is given, the
  prediction array has one entry per epoch, every epoch whose non-wear flag is
  true holds -1, and the epochs whose non-wear flag is false hold the
  detector's predictions, in order: the \<open>k\<close>-th such epoch holds the \<open>k\<close>-th
  prediction, and together they hold all of them. The array is saved as it is
  returned.
\<close>

theorem C10_coarse_prediction:
  assumes "ssl_sleep = None \<or> force_run args"
    and "length non_wear = length data2model" and "length non_wear = length tms"
    and "\<And>X. length (predict X) = length X"
  shows "\<exists>sp. predict_sleep_windows predict data2model tms non_wear args ssl_sleep =
              Inr (sp, Some sp) \<and>
           length sp = length tms \<and>
           (\<forall>i<length tms. non_wear ! i \<longrightarrow> sp ! i = - 1) \<and>
           (\<forall>i<length tms. \<not> non_wear ! i \<longrightarrow>
              sp ! i = window_predictions predict data2model non_wear !
                         count_true (take i (map Not non_wear))) \<and>
           map fst (filter snd (zip sp (map Not non_wear))) =
             window_predictions predict data2model non_wear"
  using assms by (rule predict_sleep_windows_computed)

text \<open>
  An instance of C10: three epochs, the second not worn; the detector of the
  instance answers with the number of samples of a window.
\<close>

theorem C10_coarse_prediction_witness:
  "predict_sleep_windows (map (\<lambda>w. int (length w))) [[[1, 2 :: nat]], [[3, 4]], [[5, 6, 7]]]
     [0, 30, 60] [False, True, False] (default_args ''data/sample.cwa.gz'') None =
   Inr ([2, - 1, 3], Some [2, - 1, 3])"
  using C10_coarse_prediction [of None "default_args ''data/sample.cwa.gz''"
      "[False, True, False]" "[[[1, 2 :: nat]], [[3, 4]], [[5, 6, 7]]]" "[0, 30, 60]"
      "map (\<lambda>w. int (length w))"]
  by (simp add: predict_sleep_windows_def window_predictions_def bool_index_def
      bool_assign_def NON_WEAR_PREDICTION_FLAG_def default_args_def)

section \<open>Claim about a run without sleep windows\<close>

lemma get_master_df_no_epochs:
  assumes "length acc_array = length tms" and "\<forall>row\<in>set df. block_epochs tms row = 0"
  shows "get_master_df df tms acc_array = Inr ([], [])"
proof -
  from get_master_df_eq [OF assms(1), of df]
  obtain master_acc master_npids where
    r: "get_master_df df tms acc_array = Inr (master_acc, master_npids)"
    and l: "length master_npids = sum_list (map (block_epochs tms) df)"
    and la: "length master_acc = length master_npids"
    by blast
  from assms(2) have "sum_list (map (block_epochs tms) df) = 0" by (induction df) simp_all
  with l la r show ?thesis by simp
qed

text \<open>
  Claim C3. When the block-to-epoch mapping covers no epochs (as it does when
  the block table has no row), the run prints that no sleep windows were
  detected and where the non-wear times and the coarse classification are,
  and ends by \<open>exit()\<close>: no exception, no call of the second model, no
  predictions, block table or summary written.
\<close>

theorem C3_no_sleep_windows:
  assumes "length master_npids \<le> 0"
  shows "main_after_detection start_sleep_net non_wear_path args tms binary_y
           all_sleep_wins_df sleep_wins_long_per_day_df master_acc master_npids =
         ([Print ''No sleep windows >30 mins detected. Exiting...'',
           Print (''Non-wear time has been written to '' @ non_wear_path),
           Print (''Current sleep classification has been written to '' @
                    path_join (outdir args) ''ssl_sleep.npy'')],
          Exit)"
  using assms by (simp add: main_after_detection_def)

text \<open>
  An instance of C3: the block table is empty, so the mapping
  \<open>get_master_df\<close> returns is empty, and the run ends by \<open>exit()\<close> after the
  three lines.
\<close>

theorem C3_no_sleep_windows_witness:
  "get_master_df ([] :: unit sleep_win list) [0, 30] [''a'', ''b''] = Inr ([], []) \<and>
   main_after_detection (\<lambda>acc pids. ([], [])) ''out/f/non_wear.npy''
     ((default_args ''f.cwa'')\<lparr>outdir := ''out/f''\<rparr>) [0, 30]
     [Some 0, Some 0] ([] :: unit sleep_win list) [] ([] :: string list) [] =
     ([Print ''No sleep windows >30 mins detected. Exiting...'',
       Print ''Non-wear time has been written to out/f/non_wear.npy'',
       Print ''Current sleep classification has been written to out/f/ssl_sleep.npy''],
      Exit)"
  using C3_no_sleep_windows [of "[]" "\<lambda>acc pids. ([], [])" "''out/f/non_wear.npy''"
      "(default_args ''f.cwa'')\<lparr>outdir := ''out/f''\<rparr>"
      "[0, 30]" "[Some 0, Some 0]" "[] :: unit sleep_win list" "[]" "[] :: string list"]
  by (simp add: get_master_df_def path_join_def default_args_def)

section \<open>Properties of the longest-block marking\<close>

lemma mark_block_fold:
  "fold mark_block long xs =
     map (\<lambda>row. row\<lparr>is_longest_block :=
            is_longest_block row \<or> (start_t row, end_t row) \<in> set long\<rparr>) xs"
proof (induction long arbitrary: xs)
  case Nil
  then show ?case by (simp add: map_idI)
next
  case (Cons l long)
  obtain s e where l: "l = (s, e)" by (cases l)
  show ?case unfolding fold_simps Cons.IH
    by (auto simp: mark_block_def l)
qed

lemma mark_longest_blocks_eq:
  "mark_longest_blocks long df =
     map (\<lambda>row. sleep_win.extend row
            \<lparr>is_longest_block = ((start_t row, end_t row) \<in> set long)\<rparr>) df"
  by (simp add: mark_longest_blocks_def mark_block_fold add_is_longest_block_def
      sleep_win.defs)

lemma longest_block_in: "longest_block best rows \<in> set (best # rows)"
  by (induction rows arbitrary: best) auto

lemma longer_trans: "longer a b \<Longrightarrow> longer b c \<Longrightarrow> longer a c"
  by (auto simp: longer_def)

lemma longer_neg_trans: "longer a c \<Longrightarrow> \<not> longer b c \<Longrightarrow> longer a b"
  by (auto simp: longer_def)

lemma longest_block_best:
  "r \<in> set (best # rows) \<Longrightarrow> \<not> longer r (longest_block best rows)"
proof (induction rows arbitrary: best r)
  case Nil
  then show ?case by (auto simp: longer_def)
next
  case (Cons row rows)
  let ?b = "if longer row best then row else best"
  have row: "\<not> longer row (longest_block ?b rows)"
  proof (cases "longer row best")
    case True
    then show ?thesis using Cons.IH [of row row] by simp
  next
    case False
    have "\<not> longer best (longest_block best rows)" using Cons.IH [of best best] by simp
    with False show ?thesis using longer_neg_trans [of row "longest_block best rows" best] by auto
  qed
  have best: "\<not> longer best (longest_block ?b rows)"
  proof (cases "longer row best")
    case True
    with row show ?thesis using longer_trans [of row best "longest_block row rows"] by auto
  next
    case False
    then show ?thesis using Cons.IH [of best best] by simp
  qed
  from Cons.prems consider "r = best" | "r = row" | "r \<in> set rows" by auto
  then show ?case
  proof cases
    case 1
    with best show ?thesis by simp
  next
    case 2
    with row show ?thesis by simp
  next
    case 3
    then show ?thesis using Cons.IH [of r ?b] by simp
  qed
qed

lemma interval_longest_Some:
  assumes "row \<in> set df"
  shows "\<exists>l. interval_longest (night_of row) df = Some l \<and> l \<in> set df \<and>
           night_of l = night_of row \<and>
           (\<forall>r\<in>set df. night_of r = night_of row \<longrightarrow> \<not> longer r l)"
proof -
  let ?bs = "filter (\<lambda>r. night_of r = night_of row) df"
  from assms have "row \<in> set ?bs" by simp
  then obtain b bs where bs: "?bs = b # bs" by (cases ?bs) auto
  let ?l = "longest_block b bs"
  have "?l \<in> set ?bs" using longest_block_in [of b bs] bs by simp
  then have 1: "?l \<in> set df" and 2: "night_of ?l = night_of row" by auto
  have 3: "\<not> longer r ?l" if "r \<in> set df" "night_of r = night_of row" for r
  proof -
    from that have "r \<in> set ?bs" by simp
    with bs have "r \<in> set (b # bs)" by simp
    then show ?thesis by (rule longest_block_best)
  qed
  from bs have "interval_longest (night_of row) df = Some ?l"
    by (simp add: interval_longest_def)
  with 1 2 3 show ?thesis by blast
qed

lemma interval_longest_night:
  "interval_longest iv df = Some l \<Longrightarrow> night_of l = iv \<and> l \<in> set df"
proof -
  assume a: "interval_longest iv df = Some l"
  then obtain b bs where bs: "filter (\<lambda>r. night_of r = iv) df = b # bs" and l: "l = longest_block b bs"
    by (auto simp: interval_longest_def split: list.splits)
  have "l \<in> set (b # bs)" unfolding l by (rule longest_block_in)
  with bs have "l \<in> set (filter (\<lambda>r. night_of r = iv) df)" by simp
  then show ?thesis by simp
qed

lemma set_sleep_wins_long_per_day:
  "set (sleep_wins_long_per_day df) =
     {(start_t l, end_t l) | l row. row \<in> set df \<and> interval_longest (night_of row) df = Some l}"
  (is "?L = ?R")
proof
  show "?L \<subseteq> ?R"
  proof
    fix p assume "p \<in> ?L"
    then obtain iv where iv: "iv \<in> set (night_intervals df)"
      and pin: "p \<in> set (case interval_longest iv df of None \<Rightarrow> []
                                 | Some row \<Rightarrow> [(start_t row, end_t row)])"
      unfolding sleep_wins_long_per_day_def by auto
    then obtain l where l: "interval_longest iv df = Some l" and p: "p = (start_t l, end_t l)"
      by (cases "interval_longest iv df") auto
    from iv obtain row where "row \<in> set df" "night_of row = iv"
      by (auto simp: night_intervals_def)
    with l p show "p \<in> ?R" by auto
  qed
  show "?R \<subseteq> ?L"
  proof
    fix p assume "p \<in> ?R"
    then obtain l row where row: "row \<in> set df"
      and l: "interval_longest (night_of row) df = Some l" and p: "p = (start_t l, end_t l)"
      by auto
    from row have "night_of row \<in> set (night_intervals df)" by (simp add: night_intervals_def)
    with l p show "p \<in> ?L"
      by (force simp: sleep_wins_long_per_day_def)
  qed
qed

lemma distinct_pairs_index:
  assumes "distinct (map (\<lambda>row. (start_t row, end_t row)) df)"
    and "k < length df" and "m < length df"
    and "start_t (df ! k) = start_t (df ! m)" and "end_t (df ! k) = end_t (df ! m)"
  shows "k = m"
proof -
  let ?ps = "map (\<lambda>row. (start_t row, end_t row)) df"
  from assms(2-5) have eq: "?ps ! k = ?ps ! m" by simp
  from assms(2,3) have lk: "k < length ?ps" and lm: "m < length ?ps" by simp_all
  from assms(1) lk lm have "(?ps ! k = ?ps ! m) = (k = m)" by (rule nth_eq_iff_index_eq)
  with eq show ?thesis by (rule iffD1 [rotated])
qed

lemma flagged_iff:
  assumes d: "distinct (map (\<lambda>row. (start_t row, end_t row)) df)" and k: "k < length df"
  shows "((start_t (df ! k), end_t (df ! k)) \<in> set (sleep_wins_long_per_day df)) =
         (interval_longest (night_of (df ! k)) df = Some (df ! k))"
proof
  assume "interval_longest (night_of (df ! k)) df = Some (df ! k)"
  moreover from k have "df ! k \<in> set df" by simp
  ultimately show "(start_t (df ! k), end_t (df ! k)) \<in> set (sleep_wins_long_per_day df)"
    unfolding set_sleep_wins_long_per_day by blast
next
  assume "(start_t (df ! k), end_t (df ! k)) \<in> set (sleep_wins_long_per_day df)"
  then obtain l row where row: "row \<in> set df"
    and l: "interval_longest (night_of row) df = Some l"
    and s: "start_t (df ! k) = start_t l" and e: "end_t (df ! k) = end_t l"
    unfolding set_sleep_wins_long_per_day by auto
  from interval_longest_night [OF l] have n: "night_of l = night_of row" and "l \<in> set df"
    by simp_all
  then obtain m where m: "m < length df" and lm: "l = df ! m" by (auto simp: in_set_conv_nth)
  from distinct_pairs_index [OF d k m] s e lm have "k = m" by simp
  with lm l n show "interval_longest (night_of (df ! k)) df = Some (df ! k)" by simp
qed

lemma mark_longest_blocks_table:
  assumes d: "distinct (map (\<lambda>row. (start_t row, end_t row)) df)"
    and mk: "marked = mark_longest_blocks (sleep_wins_long_per_day df) df"
  shows "length marked = length df \<and>
    (\<forall>k<length df. start_t (marked ! k) = start_t (df ! k) \<and> end_t (marked ! k) = end_t (df ! k) \<and>
        interval_start (marked ! k) = interval_start (df ! k) \<and>
        interval_end (marked ! k) = interval_end (df ! k) \<and>
        wear_duration_H (marked ! k) = wear_duration_H (df ! k)) \<and>
    (\<forall>k<length df. is_longest_block (marked ! k) =
        ((start_t (df ! k), end_t (df ! k)) \<in> set (sleep_wins_long_per_day df))) \<and>
    (\<forall>i<length df. \<exists>!k. k < length df \<and> night_of (df ! k) = night_of (df ! i) \<and>
        is_longest_block (marked ! k)) \<and>
    (\<forall>k<length df. is_longest_block (marked ! k) \<longrightarrow>
        (\<forall>i<length df. night_of (df ! i) = night_of (df ! k) \<longrightarrow>
            duration (df ! i) \<le> duration (df ! k) \<and>
            (duration (df ! i) = duration (df ! k) \<longrightarrow> start_t (df ! k) \<le> start_t (df ! i))))"
proof -
  have len: "length marked = length df" by (simp add: mk mark_longest_blocks_eq)
  have fields: "start_t (marked ! k) = start_t (df ! k) \<and> end_t (marked ! k) = end_t (df ! k) \<and>
        interval_start (marked ! k) = interval_start (df ! k) \<and>
        interval_end (marked ! k) = interval_end (df ! k) \<and>
        wear_duration_H (marked ! k) = wear_duration_H (df ! k)" if "k < length df" for k
    using that by (simp add: mk mark_longest_blocks_eq sleep_win.defs)
  have flag: "is_longest_block (marked ! k) =
        ((start_t (df ! k), end_t (df ! k)) \<in> set (sleep_wins_long_per_day df))"
    if "k < length df" for k
    using that by (simp add: mk mark_longest_blocks_eq sleep_win.defs)
  have flag': "is_longest_block (marked ! k) =
        (interval_longest (night_of (df ! k)) df = Some (df ! k))" if "k < length df" for k
    using that flag [OF that] flagged_iff [OF d that] by simp
  have one: "\<exists>!k. k < length df \<and> night_of (df ! k) = night_of (df ! i) \<and>
        is_longest_block (marked ! k)" if i: "i < length df" for i
  proof -
    from i have "df ! i \<in> set df" by simp
    from interval_longest_Some [OF this] obtain l where
      l: "interval_longest (night_of (df ! i)) df = Some l" and ldf: "l \<in> set df"
      and nl: "night_of l = night_of (df ! i)" by blast
    from ldf obtain k0 where k0: "k0 < length df" and lk: "l = df ! k0"
      by (auto simp: in_set_conv_nth)
    show ?thesis
    proof (rule ex1I [of _ k0])
      from k0 lk l nl flag' [OF k0]
      show "k0 < length df \<and> night_of (df ! k0) = night_of (df ! i) \<and>
          is_longest_block (marked ! k0)" by simp
    next
      fix k
      assume a: "k < length df \<and> night_of (df ! k) = night_of (df ! i) \<and>
          is_longest_block (marked ! k)"
      then have k: "k < length df" and nk: "night_of (df ! k) = night_of (df ! i)"
        and fk: "is_longest_block (marked ! k)" by simp_all
      from fk flag' [OF k] have "interval_longest (night_of (df ! k)) df = Some (df ! k)"
        by simp
      with nk l have "df ! k = l" by simp
      with lk have "df ! k = df ! k0" by simp
      with distinct_pairs_index [OF d k k0] show "k = k0" by simp
    qed
  qed
  have best: "duration (df ! i) \<le> duration (df ! k) \<and>
            (duration (df ! i) = duration (df ! k) \<longrightarrow> start_t (df ! k) \<le> start_t (df ! i))"
    if k: "k < length df" and fl: "is_longest_block (marked ! k)"
      and i: "i < length df" and n: "night_of (df ! i) = night_of (df ! k)" for k i
  proof -
    from k have "df ! k \<in> set df" by simp
    from interval_longest_Some [OF this] obtain l where
      l: "interval_longest (night_of (df ! k)) df = Some l"
      and b: "\<forall>r\<in>set df. night_of r = night_of (df ! k) \<longrightarrow> \<not> longer r l" by blast
    from fl flag' [OF k] l have "l = df ! k" by simp
    moreover from i have "df ! i \<in> set df" by simp
    ultimately have "\<not> longer (df ! i) (df ! k)" using b n by blast
    then show ?thesis by (auto simp: longer_def)
  qed
  from len fields flag one best show ?thesis by blast
qed


section \<open>Claim about the longest-block marking\<close>

text \<open>
  Claim C4. The marking loop of \<open>main\<close> sets \<open>is_longest_block\<close> of a row exactly
  when its \<open>(start, end)\<close> pair is a row of the per-night longest-block table,
  and leaves the other columns as they are. With the table of the longest
  block of each night, and the blocks of the block table distinct, it follows
  that for every night interval that has a sleep block exactly one row
  assigned to the interval is marked; the marked row has the greatest duration
  among the rows of its interval, and the earliest start among those of that
  duration. Every other row is unmarked; a night interval without sleep block
  has no row, hence no marked row.
\<close>

theorem C4_longest_block_marking:
  assumes d: "distinct (map (\<lambda>row. (start_t row, end_t row)) df)"
    and mk: "marked = mark_longest_blocks (sleep_wins_long_per_day df) df"
  shows "length marked = length df \<and>
    (\<forall>k<length df. start_t (marked ! k) = start_t (df ! k) \<and> end_t (marked ! k) = end_t (df ! k) \<and>
        interval_start (marked ! k) = interval_start (df ! k) \<and>
        interval_end (marked ! k) = interval_end (df ! k) \<and>
        wear_duration_H (marked ! k) = wear_duration_H (df ! k)) \<and>
    (\<forall>k<length df. is_longest_block (marked ! k) =
        ((start_t (df ! k), end_t (df ! k)) \<in> set (sleep_wins_long_per_day df))) \<and>
    (\<forall>i<length df. \<exists>!k. k < length df \<and> night_of (df ! k) = night_of (df ! i) \<and>
        is_longest_block (marked ! k)) \<and>
    (\<forall>k<length df. is_longest_block (marked ! k) \<longrightarrow>
        (\<forall>i<length df. night_of (df ! i) = night_of (df ! k) \<longrightarrow>
            duration (df ! i) \<le> duration (df ! k) \<and>
            (duration (df ! i) = duration (df ! k) \<longrightarrow> start_t (df ! k) \<le> start_t (df ! i))))"
  using d mk by (rule mark_longest_blocks_table)

text \<open>
  An instance of C4: two blocks in the first night, one in the second; the
  longer block of the first night and the only block of the second are marked.
\<close>

theorem C4_longest_block_marking_witness:
  "map is_longest_block
     (mark_longest_blocks
        (sleep_wins_long_per_day
           [\<lparr>start_t = 1000, end_t = 5000, interval_start = 0, interval_end = 86400,
          wear_duration_H = ()\<rparr>,
         \<lparr>start_t = 6000, end_t = 20000, interval_start = 0, interval_end = 86400,
          wear_duration_H = ()\<rparr>,
         \<lparr>start_t = 90000, end_t = 100000, interval_start = 86400, interval_end = 172800,
          wear_duration_H = ()\<rparr>])
        [\<lparr>start_t = 1000, end_t = 5000, interval_start = 0, interval_end = 86400,
          wear_duration_H = ()\<rparr>,
         \<lparr>start_t = 6000, end_t = 20000, interval_start = 0, interval_end = 86400,
          wear_duration_H = ()\<rparr>,
         \<lparr>start_t = 90000, end_t = 100000, interval_start = 86400, interval_end = 172800,
          wear_duration_H = ()\<rparr>]) = [False, True, True]"
  using C4_longest_block_marking [of
        "[\<lparr>start_t = 1000, end_t = 5000, interval_start = 0, interval_end = 86400,
          wear_duration_H = ()\<rparr>,
         \<lparr>start_t = 6000, end_t = 20000, interval_start = 0, interval_end = 86400,
          wear_duration_H = ()\<rparr>,
         \<lparr>start_t = 90000, end_t = 100000, interval_start = 86400, interval_end = 172800,
          wear_duration_H = ()\<rparr>]"
        "mark_longest_blocks
           (sleep_wins_long_per_day
              [\<lparr>start_t = 1000, end_t = 5000, interval_start = 0, interval_end = 86400,
          wear_duration_H = ()\<rparr>,
         \<lparr>start_t = 6000, end_t = 20000, interval_start = 0, interval_end = 86400,
          wear_duration_H = ()\<rparr>,
         \<lparr>start_t = 90000, end_t = 100000, interval_start = 86400, interval_end = 172800,
          wear_duration_H = ()\<rparr>])
           [\<lparr>start_t = 1000, end_t = 5000, interval_start = 0, interval_end = 86400,
          wear_duration_H = ()\<rparr>,
         \<lparr>start_t = 6000, end_t = 20000, interval_start = 0, interval_end = 86400,
          wear_duration_H = ()\<rparr>,
         \<lparr>start_t = 90000, end_t = 100000, interval_start = 86400, interval_end = 172800,
          wear_duration_H = ()\<rparr>]"]
  by (simp add: mark_longest_blocks_eq sleep_wins_long_per_day_def night_intervals_def
      night_of_def interval_longest_def longer_def duration_def sleep_win.defs)

section \<open>Properties of gap filling\<close>

lemma length_fill_gap [simp]: "length (fill_gap st counter g my_df) = length my_df"
  by (simp add: fill_gap_def)

lemma fill_gap_nth:
  "j < length my_df \<Longrightarrow>
   fill_gap st counter g my_df ! j =
     (if in_gap counter g j then (my_df ! j)\<lparr>label := Some (sleep_label st)\<rparr> else my_df ! j)"
  by (simp add: fill_gap_def nth_enumerate_eq)

lemma length_fill_gaps [simp]: "length (fill_gaps st my_df counter gs) = length my_df"
  unfolding fill_gaps_def by (induction gs arbitrary: my_df) simp_all

lemma fill_gaps_nth:
  "j < length my_df \<Longrightarrow>
   fill_gaps st my_df counter gs ! j =
     (if \<exists>g\<in>set gs. in_gap counter g j then (my_df ! j)\<lparr>label := Some (sleep_label st)\<rparr>
      else my_df ! j)"
  unfolding fill_gaps_def
proof (induction gs arbitrary: my_df)
  case Nil
  then show ?case by simp
next
  case (Cons g gs)
  from Cons.prems have "j < length (fill_gap st counter g my_df)" by simp
  from Cons.IH [OF this] Cons.prems show ?case
    by (simp add: fill_gap_nth)
qed

lemma fill_simultaneously_nth:
  "j < length my_df \<Longrightarrow>
   fill_simultaneously st my_df counter gaps ! j =
     (if \<exists>g\<in>gaps. in_gap counter g j then (my_df ! j)\<lparr>label := Some (sleep_label st)\<rparr>
      else my_df ! j)"
  by (simp add: fill_simultaneously_def nth_enumerate_eq)

lemma fill_gaps_simultaneously:
  "fill_gaps st my_df counter gs = fill_simultaneously st my_df counter (set gs)"
proof (rule nth_equalityI)
  show "length (fill_gaps st my_df counter gs) =
      length (fill_simultaneously st my_df counter (set gs))"
    by (simp add: fill_simultaneously_def)
next
  fix j assume "j < length (fill_gaps st my_df counter gs)"
  then have "j < length my_df" by simp
  then show "fill_gaps st my_df counter gs ! j =
      fill_simultaneously st my_df counter (set gs) ! j"
    by (simp only: fill_gaps_nth fill_simultaneously_nth)
qed

lemma set_find_gaps2fill:
  "set (find_gaps2fill st valid epoch_length counter) =
     {i. i < length counter \<and> fillable_gap st valid epoch_length counter i}"
  by (auto simp: find_gaps2fill_def)

lemma gap_filling_order:
  assumes "mset gs = mset (gaps_to_fill st my_df)"
  shows "fill_gaps st my_df (find_sleep_block_duration my_df) gs = gap_filled_frame st my_df \<and>
         gap_filled_frame st my_df =
           fill_simultaneously st my_df (find_sleep_block_duration my_df)
             {i. i < length (find_sleep_block_duration my_df) \<and>
                 fillable_gap st
                   (find_valid_sleep_blocks st (find_sleep_block_duration my_df) 30) 30
                   (find_sleep_block_duration my_df) i}"
proof -
  from assms have "set gs = set (gaps_to_fill st my_df)" by (rule mset_eq_setD)
  then have "fill_gaps st my_df (find_sleep_block_duration my_df) gs =
      fill_gaps st my_df (find_sleep_block_duration my_df) (gaps_to_fill st my_df)"
    by (simp add: fill_gaps_simultaneously)
  moreover have "fill_gaps st my_df (find_sleep_block_duration my_df) (gaps_to_fill st my_df) =
      gap_filled_frame st my_df"
    by (simp add: gap_filled_frame_def gaps_to_fill_def Let_def)
  moreover have "gap_filled_frame st my_df =
      fill_simultaneously st my_df (find_sleep_block_duration my_df)
        (set (find_gaps2fill st
          (find_valid_sleep_blocks st (find_sleep_block_duration my_df) 30) 30
          (find_sleep_block_duration my_df)))"
    by (simp add: gap_filled_frame_def Let_def fill_gaps_simultaneously)
  ultimately show ?thesis by (simp add: set_find_gaps2fill)
qed

section \<open>Claim about the segmentation\<close>

text \<open>
  Claim C6. The gaps to fill are found on the blocks of the series as it is
  given: a block that is not a sleep block, lies strictly between two valid
  sleep blocks and is shorter than the threshold. Filling the gaps one after
  the other gives the same series in whatever order the gaps are taken,
  namely the series in which one pass has relabelled the epochs of exactly
  those gaps, within the boundaries of the blocks of the given series.
\<close>

theorem C6_gap_filling_order_independent:
  assumes "mset gs = mset (gaps_to_fill st my_df)"
  shows "fill_gaps st my_df (find_sleep_block_duration my_df) gs = gap_filled_frame st my_df \<and>
         gap_filled_frame st my_df =
           fill_simultaneously st my_df (find_sleep_block_duration my_df)
             {i. i < length (find_sleep_block_duration my_df) \<and>
                 fillable_gap st
                   (find_valid_sleep_blocks st (find_sleep_block_duration my_df) 30) 30
                   (find_sleep_block_duration my_df) i}"
  using assms by (rule gap_filling_order)

text \<open>
  An instance of C6: sleep, wake, sleep, not worn, sleep, one epoch each, with
  a threshold of two epochs. Both gaps are filled, here in the order last
  gap first; the wear flags stay.
\<close>

theorem C6_gap_filling_order_independent_witness:
  "gaps_to_fill \<lparr>sleep_label = 1, min_sleep_block = 0, max_gap = 60\<rparr>
     (map (\<lambda>(t, y). \<lparr>time = t, label = Some y, is_wear = (y \<noteq> - 1)\<rparr>)
        (zip [0, 30, 60, 90, 120] [1, 0, 1, - 1, 1])) = [1, 3] \<and>
   map label (fill_gaps \<lparr>sleep_label = 1, min_sleep_block = 0, max_gap = 60\<rparr>
     (map (\<lambda>(t, y). \<lparr>time = t, label = Some y, is_wear = (y \<noteq> - 1)\<rparr>)
        (zip [0, 30, 60, 90, 120] [1, 0, 1, - 1, 1]))
     (find_sleep_block_duration
        (map (\<lambda>(t, y). \<lparr>time = t, label = Some y, is_wear = (y \<noteq> - 1)\<rparr>)
        (zip [0, 30, 60, 90, 120] [1, 0, 1, - 1, 1]))) [3, 1]) = [Some 1, Some 1, Some 1, Some 1, Some 1] \<and>
   map is_wear (fill_gaps \<lparr>sleep_label = 1, min_sleep_block = 0, max_gap = 60\<rparr>
     (map (\<lambda>(t, y). \<lparr>time = t, label = Some y, is_wear = (y \<noteq> - 1)\<rparr>)
        (zip [0, 30, 60, 90, 120] [1, 0, 1, - 1, 1]))
     (find_sleep_block_duration
        (map (\<lambda>(t, y). \<lparr>time = t, label = Some y, is_wear = (y \<noteq> - 1)\<rparr>)
        (zip [0, 30, 60, 90, 120] [1, 0, 1, - 1, 1]))) [3, 1]) = [True, True, True, False, True]"
proof -
  let ?st = "\<lparr>sleep_label = 1, min_sleep_block = 0, max_gap = 60\<rparr>"
  let ?F = "(map (\<lambda>(t, y). \<lparr>time = t, label = Some y, is_wear = (y \<noteq> - 1)\<rparr>)
        (zip [0, 30, 60, 90, 120] [1, 0, 1, - 1, 1]))"
  have g: "gaps_to_fill ?st ?F = [1, 3]" by code_simp
  then have "mset [3, 1] = mset (gaps_to_fill ?st ?F)" by simp
  from C6_gap_filling_order_independent [OF this]
  have e: "fill_gaps ?st ?F (find_sleep_block_duration ?F) [3, 1] = gap_filled_frame ?st ?F"
    by (rule conjunct1)
  have l: "map label (gap_filled_frame ?st ?F) = [Some 1, Some 1, Some 1, Some 1, Some 1]"
    by code_simp
  have w: "map is_wear (gap_filled_frame ?st ?F) = [True, True, True, False, True]"
    by code_simp
  from g e l w show ?thesis by simp
qed

end
